theory Spec2Isabelle
  imports Complex_Main "HOL-Library.Multiset"
begin

section \<open>Python numbers\<close>

text \<open>
  The program computes with Python \<open>int\<close> (unbounded) and \<open>float\<close> (IEEE 754 binary64).
  A float is modelled by the exact rational it denotes, or one of the two infinities, or
  NaN. The two zeros of binary64 are identified: the program compares floats, rounds,
  multiplies, adds and subtracts them and steps to the adjacent float; it never divides by
  a zero (Python raises first) and never reads a sign bit, so the sign of a zero is not
  observable in any result modelled here.
\<close>

datatype double = Fin rat | PInf | NInf | NaN

datatype pynum = PyInt int | PyFloat double

datatype pyobj = Num pynum | NonNum

datatype err = AssertionError | OverflowError | ValueError | ZeroDivisionError | IndexError

fun ebind :: "err + 'a \<Rightarrow> ('a \<Rightarrow> err + 'b) \<Rightarrow> err + 'b" where
  "ebind (Inl e) f = Inl e"
| "ebind (Inr x) f = f x"

subsection \<open>Rounding a rational to binary64\<close>

text \<open>The number of binary digits of a positive integer; 0 for the others.\<close>

function bitlen :: "int \<Rightarrow> int" where
  "bitlen n = (if n \<le> 0 then 0 else 1 + bitlen (n div 2))"
  by pat_completeness auto
termination
  by (relation "measure (\<lambda>n. nat n)") auto

declare bitlen.simps [simp del]

text \<open>\<open>ilog2 x\<close> is the exponent \<open>e\<close> with \<open>2 powi e \<le> x < 2 powi (e + 1)\<close>, for \<open>x > 0\<close>.\<close>

definition ilog2 :: "rat \<Rightarrow> int" where
  "ilog2 x = (if 1 \<le> x then bitlen \<lfloor>x\<rfloor> - 1 else - bitlen (\<lceil>1 / x\<rceil> - 1))"

text \<open>Round half to even, to an integer.\<close>

definition rhe :: "rat \<Rightarrow> int" where
  "rhe x = (let f = \<lfloor>x\<rfloor>; r = x - of_int f
            in if r < 1/2 then f else if 1/2 < r then f + 1
               else if even f then f else f + 1)"

text \<open>
  The spacing of binary64 around \<open>x\<close>: 52 fraction bits below the leading bit, the exponent
  never less than -1022 (the subnormal range shares the spacing \<open>2 powi (-1074)\<close>).
\<close>

definition ulp :: "rat \<Rightarrow> rat" where
  "ulp x = (if x = 0 then 2 powi (- 1074) else 2 powi (max (ilog2 \<bar>x\<bar>) (- 1022) - 52))"

definition rnd :: "rat \<Rightarrow> double" where
  "rnd x = (if x = 0 then Fin 0
            else let u = ulp x; y = of_int (rhe (x / u)) * u
                 in if 2 ^ 1024 \<le> y then PInf
                    else if y \<le> - (2 ^ 1024) then NInf
                    else Fin y)"

definition dbl_max :: rat where
  "dbl_max = (2 ^ 53 - 1) * 2 ^ 971"

subsection \<open>IEEE arithmetic on floats\<close>

fun fl_neg :: "double \<Rightarrow> double" where
  "fl_neg (Fin a) = Fin (- a)"
| "fl_neg PInf = NInf"
| "fl_neg NInf = PInf"
| "fl_neg NaN = NaN"

fun fl_abs :: "double \<Rightarrow> double" where
  "fl_abs (Fin a) = Fin \<bar>a\<bar>"
| "fl_abs PInf = PInf"
| "fl_abs NInf = PInf"
| "fl_abs NaN = NaN"

fun fl_add :: "double \<Rightarrow> double \<Rightarrow> double" where
  "fl_add (Fin a) (Fin b) = rnd (a + b)"
| "fl_add NaN _ = NaN"
| "fl_add _ NaN = NaN"
| "fl_add PInf NInf = NaN"
| "fl_add NInf PInf = NaN"
| "fl_add PInf _ = PInf"
| "fl_add NInf _ = NInf"
| "fl_add _ PInf = PInf"
| "fl_add _ NInf = NInf"

definition fl_sub :: "double \<Rightarrow> double \<Rightarrow> double" where
  "fl_sub a b = fl_add a (fl_neg b)"

text \<open>The sign of an infinite product or quotient, from the sign of the finite operand.\<close>

definition signed_inf :: "bool \<Rightarrow> double" where
  "signed_inf pos = (if pos then PInf else NInf)"

fun fl_mul :: "double \<Rightarrow> double \<Rightarrow> double" where
  "fl_mul (Fin a) (Fin b) = rnd (a * b)"
| "fl_mul NaN _ = NaN"
| "fl_mul _ NaN = NaN"
| "fl_mul PInf (Fin b) = (if b = 0 then NaN else signed_inf (0 < b))"
| "fl_mul NInf (Fin b) = (if b = 0 then NaN else signed_inf (b < 0))"
| "fl_mul (Fin a) PInf = (if a = 0 then NaN else signed_inf (0 < a))"
| "fl_mul (Fin a) NInf = (if a = 0 then NaN else signed_inf (a < 0))"
| "fl_mul PInf PInf = PInf"
| "fl_mul NInf NInf = PInf"
| "fl_mul PInf NInf = NInf"
| "fl_mul NInf PInf = NInf"

text \<open>Division by a non-zero float; Python raises before a division by zero is tried.\<close>

fun fl_div :: "double \<Rightarrow> double \<Rightarrow> double" where
  "fl_div (Fin a) (Fin b) = rnd (a / b)"
| "fl_div NaN _ = NaN"
| "fl_div _ NaN = NaN"
| "fl_div PInf (Fin b) = signed_inf (0 \<le> b)"
| "fl_div NInf (Fin b) = signed_inf (b < 0)"
| "fl_div (Fin a) PInf = Fin 0"
| "fl_div (Fin a) NInf = Fin 0"
| "fl_div _ _ = NaN"

text \<open>Comparisons: every comparison with NaN is false.\<close>

fun fl_le :: "double \<Rightarrow> double \<Rightarrow> bool" where
  "fl_le (Fin a) (Fin b) = (a \<le> b)"
| "fl_le NaN _ = False"
| "fl_le _ NaN = False"
| "fl_le NInf _ = True"
| "fl_le _ PInf = True"
| "fl_le _ _ = False"

fun fl_lt :: "double \<Rightarrow> double \<Rightarrow> bool" where
  "fl_lt (Fin a) (Fin b) = (a < b)"
| "fl_lt NaN _ = False"
| "fl_lt _ NaN = False"
| "fl_lt PInf _ = False"
| "fl_lt _ NInf = False"
| "fl_lt _ _ = True"

definition fl_eq :: "double \<Rightarrow> double \<Rightarrow> bool" where
  "fl_eq a b = (a \<noteq> NaN \<and> a = b)"

definition fl_isinf :: "double \<Rightarrow> bool" where
  "fl_isinf a = (a = PInf \<or> a = NInf)"

text \<open>\<open>math.nextafter(x, math.inf)\<close>: the adjacent float toward plus infinity.\<close>

fun nextafter_up :: "double \<Rightarrow> double" where
  "nextafter_up NaN = NaN"
| "nextafter_up PInf = PInf"
| "nextafter_up NInf = Fin (- dbl_max)"
| "nextafter_up (Fin a) =
     (if a = dbl_max then PInf
      else if 0 \<le> a then Fin (a + ulp a)
      else if - a = 2 powi (ilog2 (- a)) \<and> - 1022 < ilog2 (- a) then Fin (a + ulp a / 2)
      else Fin (a + ulp a))"

definition nextafter_down :: "double \<Rightarrow> double" where
  "nextafter_down a = fl_neg (nextafter_up (fl_neg a))"

subsection \<open>Python's operators on int and float\<close>

text \<open>\<open>float(x)\<close> and the implicit conversion of an int operand: correctly rounded, and
  OverflowError for an int too large for a float.\<close>

fun py_float :: "pynum \<Rightarrow> err + double" where
  "py_float (PyFloat d) = Inr d"
| "py_float (PyInt n) = (case rnd (of_int n) of Fin r \<Rightarrow> Inr (Fin r) | _ \<Rightarrow> Inl OverflowError)"

text \<open>The exact value of a number, for Python's exact comparison of an int with a float.\<close>

fun exact :: "pynum \<Rightarrow> double" where
  "exact (PyInt n) = Fin (of_int n)"
| "exact (PyFloat d) = d"

definition py_le :: "pynum \<Rightarrow> pynum \<Rightarrow> bool" where
  "py_le a b = fl_le (exact a) (exact b)"

definition py_lt :: "pynum \<Rightarrow> pynum \<Rightarrow> bool" where
  "py_lt a b = fl_lt (exact a) (exact b)"

text \<open>\<open>a / b\<close>: true division. Two ints give the correctly rounded quotient.\<close>

fun py_truediv :: "pynum \<Rightarrow> pynum \<Rightarrow> err + pynum" where
  "py_truediv (PyInt a) (PyInt b) =
     (if b = 0 then Inl ZeroDivisionError
      else case rnd (of_int a / of_int b) of
             Fin r \<Rightarrow> Inr (PyFloat (Fin r))
           | _ \<Rightarrow> Inl OverflowError)"
| "py_truediv a b =
     ebind (py_float a) (\<lambda>x. ebind (py_float b) (\<lambda>y.
       if y = Fin 0 then Inl ZeroDivisionError else Inr (PyFloat (fl_div x y))))"

fun py_mul :: "pynum \<Rightarrow> pynum \<Rightarrow> err + pynum" where
  "py_mul (PyInt a) (PyInt b) = Inr (PyInt (a * b))"
| "py_mul a b =
     ebind (py_float a) (\<lambda>x. ebind (py_float b) (\<lambda>y. Inr (PyFloat (fl_mul x y))))"

fun py_add :: "pynum \<Rightarrow> pynum \<Rightarrow> err + pynum" where
  "py_add (PyInt a) (PyInt b) = Inr (PyInt (a + b))"
| "py_add a b =
     ebind (py_float a) (\<lambda>x. ebind (py_float b) (\<lambda>y. Inr (PyFloat (fl_add x y))))"

fun py_sub :: "pynum \<Rightarrow> pynum \<Rightarrow> err + pynum" where
  "py_sub (PyInt a) (PyInt b) = Inr (PyInt (a - b))"
| "py_sub a b =
     ebind (py_float a) (\<lambda>x. ebind (py_float b) (\<lambda>y. Inr (PyFloat (fl_sub x y))))"

text \<open>\<open>round(x)\<close> with one argument: an int, ties to even.\<close>

fun py_round :: "pynum \<Rightarrow> err + int" where
  "py_round (PyInt n) = Inr n"
| "py_round (PyFloat (Fin r)) = Inr (rhe r)"
| "py_round (PyFloat NaN) = Inl ValueError"
| "py_round (PyFloat _) = Inl OverflowError"

text \<open>\<open>math.isclose(a, b)\<close> with its defaults \<open>rel_tol = 1e-09\<close>, \<open>abs_tol = 0.0\<close>.\<close>

definition rel_tol :: double where
  "rel_tol = rnd (1 / 10 ^ 9)"

definition fl_isclose :: "double \<Rightarrow> double \<Rightarrow> bool" where
  "fl_isclose a b =
     (if fl_eq a b then True
      else if fl_isinf a \<or> fl_isinf b then False
      else let diff = fl_abs (fl_sub b a)
           in fl_le diff (fl_abs (fl_mul rel_tol b))
              \<or> fl_le diff (fl_abs (fl_mul rel_tol a))
              \<or> fl_le diff (Fin 0))"

definition isclose :: "pynum \<Rightarrow> pynum \<Rightarrow> err + bool" where
  "isclose a b = ebind (py_float a) (\<lambda>x. ebind (py_float b) (\<lambda>y. Inr (fl_isclose x y)))"

section \<open>util/float.py\<close>

definition next_float :: "pynum \<Rightarrow> err + pynum" where
  "next_float val = ebind (py_float val) (\<lambda>x. Inr (PyFloat (nextafter_up x)))"

definition prev_float :: "pynum \<Rightarrow> err + pynum" where
  "prev_float val = ebind (py_float val) (\<lambda>x. Inr (PyFloat (nextafter_down x)))"

definition round_nearest :: "pynum \<Rightarrow> pynum \<Rightarrow> err + pynum" where
  "round_nearest num to =
     ebind (py_truediv num to) (\<lambda>d. ebind (py_round d) (\<lambda>k. py_mul (PyInt k) to))"

definition round_down :: "pynum \<Rightarrow> pynum \<Rightarrow> err + pynum" where
  "round_down num to =
     ebind (round_nearest num to) (\<lambda>nearest.
     ebind (isclose num nearest) (\<lambda>c.
       if c then Inr num
       else if py_lt nearest num then Inr nearest else py_sub nearest to))"

definition round_up :: "pynum \<Rightarrow> pynum \<Rightarrow> err + pynum" where
  "round_up num to =
     ebind (round_nearest num to) (\<lambda>nearest.
     ebind (isclose num nearest) (\<lambda>c.
       if c then Inr num
       else if py_lt num nearest then Inr nearest else py_add nearest to))"

section \<open>var.py\<close>

text \<open>
  A bound is a pair of numbers, the bounds of a variable a tuple of them; an encoded
  solution is a sequence whose elements should be numbers, which \<open>decode\<close> checks.
  The parameters of the constructors are numbers, int or float: \<open>UniformVar\<close> and
  \<open>QuniformVar\<close> convert theirs with \<open>float(...)\<close>, left to right, before any assertion,
  and \<open>RandintVar\<close> and \<open>QrandintVar\<close> assert \<open>isinstance(arg, int)\<close> of theirs.
\<close>

type_synonym bound = "pynum \<times> pynum"
type_synonym bounds = "bound list"
type_synonym encoding = "pyobj list"

text \<open>\<open>xs[i]\<close> of a Python list: a negative index counts from the end.\<close>

definition py_getitem :: "'a list \<Rightarrow> int \<Rightarrow> err + 'a" where
  "py_getitem xs i =
     (if 0 \<le> i \<and> i < int (length xs) then Inr (xs ! nat i)
      else if i < 0 \<and> - int (length xs) \<le> i then Inr (xs ! nat (int (length xs) + i))
      else Inl IndexError)"

text \<open>\<open>isinstance(x, (float, int))\<close>.\<close>

fun is_number :: "pyobj \<Rightarrow> bool" where
  "is_number (Num _) = True"
| "is_number NonNum = False"

fun is_int :: "pynum \<Rightarrow> bool" where
  "is_int (PyInt _) = True"
| "is_int (PyFloat _) = False"

fun is_float :: "pynum \<Rightarrow> bool" where
  "is_float (PyFloat _) = True"
| "is_float (PyInt _) = False"

text \<open>
  \<open>BaseVar.__len__\<close>: the length of the bounds. \<open>bounds\<close> is a \<open>cached_property\<close>: the
  first access computes the value and stores it in the instance, a later access returns
  what is stored; an access that raises stores nothing. The cache is the second
  component.
\<close>

definition var_len :: "err + bounds \<Rightarrow> err + nat" where
  "var_len bs = ebind bs (\<lambda>b. Inr (length b))"

definition cached_property :: "('v \<Rightarrow> err + 'b) \<Rightarrow> 'v \<Rightarrow> 'b option \<Rightarrow> (err + 'b) \<times> 'b option" where
  "cached_property f self cache =
     (case cache of
        Some b \<Rightarrow> (Inr b, cache)
      | None \<Rightarrow> (case f self of Inl e \<Rightarrow> (Inl e, None) | Inr b \<Rightarrow> (Inr b, Some b)))"

subsection \<open>UniformVar\<close>

record uniform_var =
  uniform_lower :: double
  uniform_upper :: double

definition uniform_init :: "pynum \<Rightarrow> pynum \<Rightarrow> err + uniform_var" where
  "uniform_init lower upper =
     ebind (py_float lower) (\<lambda>l.
     ebind (py_float upper) (\<lambda>u.
       if \<not> fl_le l u then Inl AssertionError
       else Inr \<lparr>uniform_lower = l, uniform_upper = u\<rparr>))"

definition uniform_bounds :: "uniform_var \<Rightarrow> err + bounds" where
  "uniform_bounds v = Inr [(PyFloat (uniform_lower v), PyFloat (uniform_upper v))]"

definition uniform_decode :: "uniform_var \<Rightarrow> encoding \<Rightarrow> err + pynum" where
  "uniform_decode v encoded =
     (if length encoded \<noteq> 1 then Inl AssertionError
      else case encoded ! 0 of
        NonNum \<Rightarrow> Inl AssertionError
      | Num x \<Rightarrow>
          ebind (uniform_bounds v) (\<lambda>bs. ebind (py_getitem bs 0) (\<lambda>(lo, hi).
            if \<not> (py_le lo x \<and> py_le x hi) then Inl AssertionError
            else ebind (py_float x) (\<lambda>decoded.
              if \<not> (fl_le (uniform_lower v) decoded \<and> fl_le decoded (uniform_upper v))
              then Inl AssertionError
              else Inr (PyFloat decoded)))))"

subsection \<open>QuniformVar and QrandintVar\<close>

text \<open>
  The two \<open>bounds\<close> properties have the same body, on float fields in \<open>QuniformVar\<close> and on
  int fields in \<open>QrandintVar\<close>; it is written once, over numbers.
\<close>

definition quantized_bounds :: "pynum \<Rightarrow> pynum \<Rightarrow> pynum \<Rightarrow> err + bounds" where
  "quantized_bounds lower upper quantum =
     ebind (py_truediv quantum (PyInt 2)) (\<lambda>half_step.
     ebind (round_up lower quantum) (\<lambda>quantized_lower.
     ebind (round_down upper quantum) (\<lambda>quantized_upper.
       if \<not> (py_le lower quantized_lower \<and> py_le quantized_lower quantized_upper
              \<and> py_le quantized_upper upper)
       then Inl AssertionError
       else ebind (py_sub quantized_upper quantized_lower) (\<lambda>span.
         if \<not> py_le quantum span then Inl AssertionError
         else ebind (py_sub quantized_lower half_step) (\<lambda>a.
              ebind (next_float a) (\<lambda>lo.
              ebind (py_add quantized_upper half_step) (\<lambda>b.
              ebind (prev_float b) (\<lambda>hi. Inr [(lo, hi)]))))))))"

text \<open>
  The two \<open>decode\<close> methods differ in the type they assert of the decoded value only:
  \<open>want_int\<close> is false for \<open>QuniformVar\<close> (a float) and true for \<open>QrandintVar\<close> (an int).
\<close>

definition quantized_decode ::
  "bool \<Rightarrow> pynum \<Rightarrow> pynum \<Rightarrow> pynum \<Rightarrow> encoding \<Rightarrow> err + pynum" where
  "quantized_decode want_int lower upper quantum encoded =
     (if length encoded \<noteq> 1 then Inl AssertionError
      else case encoded ! 0 of
        NonNum \<Rightarrow> Inl AssertionError
      | Num x \<Rightarrow>
          ebind (quantized_bounds lower upper quantum) (\<lambda>bs.
          ebind (py_getitem bs 0) (\<lambda>(lo, hi).
            if \<not> (py_le lo x \<and> py_le x hi) then Inl AssertionError
            else ebind (round_nearest x quantum) (\<lambda>decoded.
              if is_int decoded \<noteq> want_int then Inl AssertionError
              else if \<not> (py_le lower decoded \<and> py_le decoded upper) then Inl AssertionError
              else Inr decoded))))"

record quniform_var =
  quniform_lower :: double
  quniform_upper :: double
  quniform_quantum :: double

definition quniform_init :: "pynum \<Rightarrow> pynum \<Rightarrow> pynum \<Rightarrow> err + quniform_var" where
  "quniform_init lower upper q =
     ebind (py_float lower) (\<lambda>l.
     ebind (py_float upper) (\<lambda>u.
     ebind (py_float q) (\<lambda>quantum.
       if \<not> fl_le l u then Inl AssertionError
       else if \<not> (fl_lt (Fin 0) quantum \<and> fl_le quantum (fl_sub u l)) then Inl AssertionError
       else Inr \<lparr>quniform_lower = l, quniform_upper = u, quniform_quantum = quantum\<rparr>)))"

definition quniform_bounds :: "quniform_var \<Rightarrow> err + bounds" where
  "quniform_bounds v =
     quantized_bounds (PyFloat (quniform_lower v)) (PyFloat (quniform_upper v))
       (PyFloat (quniform_quantum v))"

definition quniform_decode :: "quniform_var \<Rightarrow> encoding \<Rightarrow> err + pynum" where
  "quniform_decode v encoded =
     quantized_decode False (PyFloat (quniform_lower v)) (PyFloat (quniform_upper v))
       (PyFloat (quniform_quantum v)) encoded"

record qrandint_var =
  qrandint_lower :: int
  qrandint_upper :: int
  qrandint_quantum :: int

definition qrandint_init :: "pynum \<Rightarrow> pynum \<Rightarrow> pynum \<Rightarrow> err + qrandint_var" where
  "qrandint_init lower upper q =
     (case (lower, upper, q) of
        (PyInt l, PyInt u, PyInt k) \<Rightarrow>
          if \<not> l \<le> u then Inl AssertionError
          else if \<not> (1 \<le> k \<and> k \<le> u - l) then Inl AssertionError
          else Inr \<lparr>qrandint_lower = l, qrandint_upper = u, qrandint_quantum = k\<rparr>
      | _ \<Rightarrow> Inl AssertionError)"

definition qrandint_bounds :: "qrandint_var \<Rightarrow> err + bounds" where
  "qrandint_bounds v =
     quantized_bounds (PyInt (qrandint_lower v)) (PyInt (qrandint_upper v))
       (PyInt (qrandint_quantum v))"

definition qrandint_decode :: "qrandint_var \<Rightarrow> encoding \<Rightarrow> err + pynum" where
  "qrandint_decode v encoded =
     quantized_decode True (PyInt (qrandint_lower v)) (PyInt (qrandint_upper v))
       (PyInt (qrandint_quantum v)) encoded"

subsection \<open>RandintVar\<close>

record randint_var =
  randint_lower :: int
  randint_upper :: int

definition randint_init :: "pynum \<Rightarrow> pynum \<Rightarrow> err + randint_var" where
  "randint_init lower upper =
     (case (lower, upper) of
        (PyInt l, PyInt u) \<Rightarrow>
          if \<not> l \<le> u then Inl AssertionError
          else Inr \<lparr>randint_lower = l, randint_upper = u\<rparr>
      | _ \<Rightarrow> Inl AssertionError)"

definition randint_bounds :: "randint_var \<Rightarrow> err + bounds" where
  "randint_bounds v =
     (let half_step = PyFloat (Fin (1/2))
      in ebind (py_sub (PyInt (randint_lower v)) half_step) (\<lambda>a.
         ebind (next_float a) (\<lambda>lo.
         ebind (py_add (PyInt (randint_upper v)) half_step) (\<lambda>b.
         ebind (prev_float b) (\<lambda>hi. Inr [(lo, hi)])))))"

definition randint_decode :: "randint_var \<Rightarrow> encoding \<Rightarrow> err + int" where
  "randint_decode v encoded =
     (if length encoded \<noteq> 1 then Inl AssertionError
      else case encoded ! 0 of
        NonNum \<Rightarrow> Inl AssertionError
      | Num x \<Rightarrow>
          ebind (randint_bounds v) (\<lambda>bs. ebind (py_getitem bs 0) (\<lambda>(lo, hi).
            if \<not> (py_le lo x \<and> py_le x hi) then Inl AssertionError
            else ebind (py_round x) (\<lambda>decoded.
              if \<not> (randint_lower v \<le> decoded \<and> decoded \<le> randint_upper v)
              then Inl AssertionError
              else Inr decoded))))"

subsection \<open>ChoiceVar\<close>

record 'a choice_var =
  categories :: "'a list"
  encoding_len :: nat

definition choice_init :: "'a list \<Rightarrow> err + 'a choice_var" where
  "choice_init cats =
     (if cats = [] then Inl AssertionError
      else let num_categories = length cats
           in if num_categories \<noteq> length (remdups cats) then Inl AssertionError
              else Inr \<lparr>categories = cats,
                        encoding_len = (if num_categories = 1 then 0 else num_categories)\<rparr>)"

definition choice_bounds :: "'a choice_var \<Rightarrow> err + bounds" where
  "choice_bounds v = Inr (replicate (encoding_len v) (PyFloat (Fin 0), PyFloat (Fin 1)))"

text \<open>
  \<open>max(range(len(encoded)), key=encoded.__getitem__)\<close>: \<open>max\<close> keeps the first item and
  replaces it only by a later item whose key is strictly greater. \<open>argmax_loop\<close> runs over
  the items after the first, with the index of the next item, the best index and its key.
\<close>

fun argmax_loop :: "pynum list \<Rightarrow> nat \<Rightarrow> nat \<Rightarrow> pynum \<Rightarrow> nat" where
  "argmax_loop [] i best best_key = best"
| "argmax_loop (x # xs) i best best_key =
     (if py_lt best_key x then argmax_loop xs (Suc i) i x
      else argmax_loop xs (Suc i) best best_key)"

definition py_argmax :: "pynum list \<Rightarrow> err + nat" where
  "py_argmax keys = (case keys of [] \<Rightarrow> Inl ValueError | x # xs \<Rightarrow> Inr (argmax_loop xs 1 0 x))"

fun the_num :: "pyobj \<Rightarrow> pynum" where
  "the_num (Num x) = x"
| "the_num NonNum = PyInt 0"

definition unit_interval :: "pyobj \<Rightarrow> bool" where
  "unit_interval f = (py_le (PyFloat (Fin 0)) (the_num f) \<and> py_le (the_num f) (PyFloat (Fin 1)))"

definition choice_decode :: "'a choice_var \<Rightarrow> encoding \<Rightarrow> err + 'a" where
  "choice_decode v encoded =
     (if length encoded \<noteq> encoding_len v then Inl AssertionError
      else if 1 < encoding_len v then
        if \<not> list_all is_number encoded then Inl AssertionError
        else if \<not> list_all unit_interval encoded then Inl AssertionError
        else ebind (py_argmax (map the_num encoded)) (\<lambda>index.
               py_getitem (categories v) (int index))
      else if encoding_len v \<noteq> 0 then Inl AssertionError
      else py_getitem (categories v) 0)"

subsection \<open>GridVar\<close>

text \<open>
  The values of a grid are ordered by Python's \<open>sorted\<close>, a stable sort by \<open><\<close>; they are
  taken from a linear order. Numbers are represented by their exact values (Python's \<open>==\<close>
  and \<open>hash\<close> identify an int with the float of the same value).
\<close>

record 'a grid_var =
  grid_values :: "'a list"
  grid_randint_var :: randint_var

definition grid_init :: "'a::linorder list \<Rightarrow> err + 'a grid_var" where
  "grid_init vals =
     (if vals = [] then Inl AssertionError
      else let sorted_vals = sort vals
           in if length sorted_vals \<noteq> length (remdups sorted_vals) then Inl AssertionError
              else ebind (randint_init (PyInt 0) (PyInt (int (length vals) - 1))) (\<lambda>r.
                     Inr \<lparr>grid_values = sorted_vals, grid_randint_var = r\<rparr>))"

definition grid_bounds :: "'a grid_var \<Rightarrow> err + bounds" where
  "grid_bounds v = randint_bounds (grid_randint_var v)"

definition grid_decode :: "'a grid_var \<Rightarrow> encoding \<Rightarrow> err + 'a" where
  "grid_decode v encoded =
     ebind (randint_decode (grid_randint_var v) encoded) (\<lambda>decoded.
       py_getitem (grid_values v) decoded)"

section \<open>The objective wrapper\<close>

text \<open>
  The six kinds of variable as one type, with the bounds, the length and the decoding of
  each kind; a decoded value is a number or a category (or grid value).
\<close>

datatype 'a variable =
    UniformVar uniform_var
  | QuniformVar quniform_var
  | RandintVar randint_var
  | QrandintVar qrandint_var
  | ChoiceVar "'a choice_var"
  | GridVar "'a grid_var"

datatype 'a decoded = NumVal pynum | CatVal 'a

fun variable_bounds :: "'a variable \<Rightarrow> err + bounds" where
  "variable_bounds (UniformVar v) = uniform_bounds v"
| "variable_bounds (QuniformVar v) = quniform_bounds v"
| "variable_bounds (RandintVar v) = randint_bounds v"
| "variable_bounds (QrandintVar v) = qrandint_bounds v"
| "variable_bounds (ChoiceVar v) = choice_bounds v"
| "variable_bounds (GridVar v) = grid_bounds v"

fun variable_decode :: "'a variable \<Rightarrow> encoding \<Rightarrow> err + 'a decoded" where
  "variable_decode (UniformVar v) e = ebind (uniform_decode v e) (\<lambda>x. Inr (NumVal x))"
| "variable_decode (QuniformVar v) e = ebind (quniform_decode v e) (\<lambda>x. Inr (NumVal x))"
| "variable_decode (RandintVar v) e = ebind (randint_decode v e) (\<lambda>x. Inr (NumVal (PyInt x)))"
| "variable_decode (QrandintVar v) e = ebind (qrandint_decode v e) (\<lambda>x. Inr (NumVal x))"
| "variable_decode (ChoiceVar v) e = ebind (choice_decode v e) (\<lambda>x. Inr (CatVal x))"
| "variable_decode (GridVar v) e = ebind (grid_decode v e) (\<lambda>x. Inr (CatVal x))"

text \<open>
  Modelled from the spec: the objective wrapper (class \<open>Objective\<close> of the module
  \<open>wrapdisc.wrapdisc\<close>), which the test suite imports and which is not among the source
  files. The spec's words: decode slices the flat vector by each variable's offset and
  length, decodes each slice and returns the tuple of decoded values in declared order;
  evaluate first decodes the vector, then takes the vector itself as the key: if that
  exact key has been evaluated before it returns the cached result (a hit) without calling
  the logical function, otherwise it calls the logical function on the decoded tuple,
  stores the result under the key and returns it (a miss). The statistics are \<open>hits\<close>,
  \<open>misses\<close>, \<open>maxsize\<close> (always unbounded) and \<open>currsize\<close>, the number of keys cached.
  The field \<open>calls\<close> is not part of the wrapper: it logs the arguments of every call of
  the logical function, so that "without calling it again" can be stated.
\<close>

fun objective_decode :: "'a variable list \<Rightarrow> encoding \<Rightarrow> err + 'a decoded list" where
  "objective_decode [] encoded = Inr []"
| "objective_decode (v # vs) encoded =
     ebind (var_len (variable_bounds v)) (\<lambda>n.
     ebind (variable_decode v (take n encoded)) (\<lambda>x.
     ebind (objective_decode vs (drop n encoded)) (\<lambda>xs. Inr (x # xs))))"

record ('a, 'r) objective_state =
  cache :: "(encoding \<times> 'r) list"
  hits :: nat
  misses :: nat
  calls :: "'a decoded list list"

definition fresh :: "('a, 'r) objective_state" where
  "fresh = \<lparr>cache = [], hits = 0, misses = 0, calls = []\<rparr>"

definition evaluate ::
  "('a decoded list \<Rightarrow> 'r) \<Rightarrow> 'a variable list \<Rightarrow> ('a, 'r) objective_state \<Rightarrow> encoding
   \<Rightarrow> (err + 'r) \<times> ('a, 'r) objective_state" where
  "evaluate func variables s x =
     (case objective_decode variables x of
        Inl e \<Rightarrow> (Inl e, s)
      | Inr d \<Rightarrow>
          (case map_of (cache s) x of
             Some r \<Rightarrow> (Inr r, s\<lparr>hits := hits s + 1\<rparr>)
           | None \<Rightarrow>
               (let r = func d
                in (Inr r, s\<lparr>cache := (x, r) # cache s, misses := misses s + 1,
                               calls := calls s @ [d]\<rparr>))))"

text \<open>The statistics: hits, misses, maxsize (\<open>None\<close>: unbounded) and currsize.\<close>

definition cache_info :: "('a, 'r) objective_state \<Rightarrow> nat \<times> nat \<times> nat option \<times> nat" where
  "cache_info s = (hits s, misses s, None, length (cache s))"

section \<open>Notions used in the statements\<close>

text \<open>The exact value of a finite number, and the numbers that have one.\<close>

fun key_val :: "pynum \<Rightarrow> rat" where
  "key_val (PyInt n) = of_int n"
| "key_val (PyFloat (Fin r)) = r"
| "key_val (PyFloat _) = 0"

definition finite_num :: "pynum \<Rightarrow> bool" where
  "finite_num x = (\<exists>r. exact x = Fin r)"

section \<open>Results as values\<close>

lemma ebind_Inr_iff: "ebind m f = Inr y \<longleftrightarrow> (\<exists>x. m = Inr x \<and> f x = Inr y)"
  by (cases m) auto

section \<open>Evaluating floats\<close>

text \<open>Rules that let the simplifier compute \<open>rnd\<close> and the operations on concrete numbers.\<close>

lemma bitlen_0: "bitlen 0 = 0"
  by (simp add: bitlen.simps)

lemma bitlen_1: "bitlen 1 = 1"
  by (simp add: bitlen.simps)

lemma bitlen_numeral: "bitlen (numeral k) = 1 + bitlen (numeral k div 2)"
  by (subst bitlen.simps) simp

lemma floor_rat_numeral_div:
  "\<lfloor>numeral a / numeral b :: rat\<rfloor> = numeral a div numeral b"
  using floor_divide_of_int_eq[of "numeral a" "numeral b", where ?'a = rat] by simp

lemma floor_rat_neg_numeral_div:
  "\<lfloor>- (numeral a / numeral b) :: rat\<rfloor> = - numeral a div numeral b"
  using floor_divide_of_int_eq[of "- numeral a" "numeral b", where ?'a = rat] by simp

lemma ceiling_rat_numeral_div:
  "\<lceil>numeral a / numeral b :: rat\<rceil> = - (- numeral a div numeral b)"
  unfolding ceiling_def by (simp only: floor_rat_neg_numeral_div)

lemma ceiling_rat_neg_numeral_div:
  "\<lceil>- (numeral a / numeral b) :: rat\<rceil> = - (numeral a div numeral b)"
  unfolding ceiling_def by (simp add: floor_rat_numeral_div)

lemma floor_rat_one_div: "\<lfloor>1 / numeral b :: rat\<rfloor> = 1 div numeral b"
  using floor_divide_of_int_eq[of 1 "numeral b", where ?'a = rat] by simp

lemma floor_rat_neg_one_div: "\<lfloor>- (1 / numeral b) :: rat\<rfloor> = - 1 div numeral b"
  using floor_divide_of_int_eq[of "- 1" "numeral b", where ?'a = rat] by simp

lemma ceiling_rat_one_div: "\<lceil>1 / numeral b :: rat\<rceil> = - (- 1 div numeral b)"
  unfolding ceiling_def by (simp only: floor_rat_neg_one_div)

lemma ceiling_rat_neg_one_div: "\<lceil>- (1 / numeral b) :: rat\<rceil> = - (1 div numeral b)"
  unfolding ceiling_def by (simp add: floor_rat_one_div)

lemmas float_eval =
  rnd_def ulp_def ilog2_def rhe_def Let_def bitlen_0 bitlen_1 bitlen_numeral
  floor_rat_numeral_div floor_rat_neg_numeral_div ceiling_rat_numeral_div
  ceiling_rat_neg_numeral_div floor_rat_one_div floor_rat_neg_one_div
  ceiling_rat_one_div ceiling_rat_neg_one_div dbl_max_def fl_sub_def fl_eq_def fl_isinf_def
  nextafter_down_def signed_inf_def py_le_def py_lt_def

lemma rel_tol_value: "rel_tol = Fin (4835703278458517 / 4835703278458516698824704)"
  by (simp add: rel_tol_def float_eval)

section \<open>Properties of rounding\<close>
















lemmas var_eval =
  randint_bounds_def randint_decode_def next_float_def prev_float_def py_getitem_def
  grid_decode_def grid_bounds_def var_len_def

section \<open>Comparisons and duplicates\<close>

lemma fl_lt_not_le: "fl_lt a b \<Longrightarrow> \<not> fl_le b a"
  by (cases a; cases b) auto

lemma fl_le_not_lt: "fl_le a b \<Longrightarrow> \<not> fl_lt b a"
  by (cases a; cases b) auto

lemma remdups_length_distinct: "length xs = length (remdups xs) \<longleftrightarrow> distinct xs"
  by (metis distinct_remdups length_remdups_eq remdups_id_iff_distinct)

section \<open>ChoiceVar\<close>

lemma choice_init_Inr:
  assumes "choice_init cats = Inr v"
  shows "cats \<noteq> [] \<and> distinct cats \<and> categories v = cats
         \<and> encoding_len v = (if length cats = 1 then 0 else length cats)"
proof -
  from assms have ne: "cats \<noteq> []" and len: "length cats = length (remdups cats)"
    by (auto simp: choice_init_def Let_def split: if_splits)
  from len have "distinct cats"
    using remdups_length_distinct by blast
  moreover from assms ne len have "categories v = cats
         \<and> encoding_len v = (if length cats = 1 then 0 else length cats)"
    by (auto simp: choice_init_def Let_def split: if_splits)
  ultimately show ?thesis using ne by simp
qed

text \<open>
  C7. A \<open>ChoiceVar\<close> of exactly one category has encoding length 0 and empty bounds, and
  decoding the empty slice returns that category; so \<open>ChoiceVar(["x"]).decode([])\<close> is
  \<open>"x"\<close>.
\<close>

theorem choice_single_category:
  "(\<exists>v. choice_init [c] = Inr v \<and> encoding_len v = 0 \<and> choice_bounds v = Inr []
       \<and> var_len (choice_bounds v) = Inr 0 \<and> choice_decode v [] = Inr c)
   \<and> (\<exists>w. choice_init [''x''] = Inr w \<and> var_len (choice_bounds w) = Inr 0
          \<and> choice_decode w [] = Inr ''x'')"
  by (simp add: choice_init_def choice_bounds_def var_len_def choice_decode_def py_getitem_def)

subsection \<open>The first maximum\<close>

lemma unit_interval_finite: "unit_interval (Num x) \<Longrightarrow> finite_num x"
  by (cases x rule: exact.cases; cases "exact x")
     (auto simp: unit_interval_def finite_num_def py_le_def)

lemma py_lt_key_val: "finite_num a \<Longrightarrow> finite_num b \<Longrightarrow> py_lt a b \<longleftrightarrow> key_val a < key_val b"
  by (cases a rule: key_val.cases; cases b rule: key_val.cases) (auto simp: finite_num_def py_lt_def)

lemma py_le_key_val: "finite_num a \<Longrightarrow> finite_num b \<Longrightarrow> py_le a b \<longleftrightarrow> key_val a \<le> key_val b"
  by (cases a rule: key_val.cases; cases b rule: key_val.cases) (auto simp: finite_num_def py_le_def)

text \<open>
  The loop invariant of \<open>max\<close>: with \<open>pre\<close> the items already seen, the best index holds
  a key that no seen key exceeds and that every earlier key is strictly below.
\<close>

lemma argmax_loop_first_max:
  assumes "length pre = i" "best < i" "best_key = (pre @ xs) ! best"
    and "\<forall>x \<in> set (pre @ xs). finite_num x"
    and "\<forall>j < i. key_val ((pre @ xs) ! j) \<le> key_val best_key"
    and "\<forall>j < best. key_val ((pre @ xs) ! j) < key_val best_key"
  shows "argmax_loop xs i best best_key < length (pre @ xs)
       \<and> (\<forall>j < length (pre @ xs).
             key_val ((pre @ xs) ! j) \<le> key_val ((pre @ xs) ! argmax_loop xs i best best_key))
       \<and> (\<forall>j < argmax_loop xs i best best_key.
             key_val ((pre @ xs) ! j) < key_val ((pre @ xs) ! argmax_loop xs i best best_key))"
  using assms
proof (induction xs arbitrary: pre i best best_key)
  case Nil
  then show ?case by simp
next
  case (Cons x xs)
  let ?full = "pre @ x # xs"
  have full: "(pre @ [x]) @ xs = ?full" by simp
  have xi: "?full ! i = x" using Cons.prems(1) by (simp add: nth_append)
  have fb: "finite_num best_key" using Cons.prems by (auto simp: nth_append)
  have fx: "finite_num x" using Cons.prems by auto
  show ?case
  proof (cases "py_lt best_key x")
    case True
    then have lt: "key_val best_key < key_val x" using py_lt_key_val[OF fb fx] by simp
    have a: "\<forall>j < Suc i. key_val (((pre @ [x]) @ xs) ! j) \<le> key_val x"
    proof (intro allI impI)
      fix j assume "j < Suc i"
      then consider "j < i" | "j = i" by linarith
      then show "key_val (((pre @ [x]) @ xs) ! j) \<le> key_val x"
        using Cons.prems(5) lt xi by cases (auto simp: full)
    qed
    have b: "\<forall>j < i. key_val (((pre @ [x]) @ xs) ! j) < key_val x"
      using Cons.prems(5) lt by (auto simp: full)
    have "argmax_loop xs (Suc i) i x < length ((pre @ [x]) @ xs)
       \<and> (\<forall>j < length ((pre @ [x]) @ xs).
             key_val (((pre @ [x]) @ xs) ! j) \<le> key_val (((pre @ [x]) @ xs) ! argmax_loop xs (Suc i) i x))
       \<and> (\<forall>j < argmax_loop xs (Suc i) i x.
             key_val (((pre @ [x]) @ xs) ! j) < key_val (((pre @ [x]) @ xs) ! argmax_loop xs (Suc i) i x))"
      using Cons.prems(1,4) xi a b
      by (intro Cons.IH) (auto simp: full)
    then show ?thesis using True by simp
  next
    case False
    then have le: "key_val x \<le> key_val best_key" using py_lt_key_val[OF fb fx] by simp
    have a: "\<forall>j < Suc i. key_val (((pre @ [x]) @ xs) ! j) \<le> key_val best_key"
    proof (intro allI impI)
      fix j assume "j < Suc i"
      then consider "j < i" | "j = i" by linarith
      then show "key_val (((pre @ [x]) @ xs) ! j) \<le> key_val best_key"
        using Cons.prems(5) le xi by cases (auto simp: full)
    qed
    have "argmax_loop xs (Suc i) best best_key < length ((pre @ [x]) @ xs)
       \<and> (\<forall>j < length ((pre @ [x]) @ xs).
             key_val (((pre @ [x]) @ xs) ! j) \<le> key_val (((pre @ [x]) @ xs) ! argmax_loop xs (Suc i) best best_key))
       \<and> (\<forall>j < argmax_loop xs (Suc i) best best_key.
             key_val (((pre @ [x]) @ xs) ! j) < key_val (((pre @ [x]) @ xs) ! argmax_loop xs (Suc i) best best_key))"
      using Cons.prems(1,2,3,4,6) a
      by (intro Cons.IH) (auto simp: full)
    then show ?thesis using False by simp
  qed
qed

lemma py_argmax_first_max:
  assumes "keys \<noteq> []" "\<forall>x \<in> set keys. finite_num x"
  shows "\<exists>i < length keys. py_argmax keys = Inr i
          \<and> (\<forall>j < length keys. py_le (keys ! j) (keys ! i))
          \<and> (\<forall>j < i. py_lt (keys ! j) (keys ! i))"
proof -
  from assms(1) obtain x xs where k: "keys = x # xs" by (cases keys) auto
  let ?r = "argmax_loop xs 1 0 x"
  have "?r < length ([x] @ xs)
       \<and> (\<forall>j < length ([x] @ xs). key_val (([x] @ xs) ! j) \<le> key_val (([x] @ xs) ! ?r))
       \<and> (\<forall>j < ?r. key_val (([x] @ xs) ! j) < key_val (([x] @ xs) ! ?r))"
    using assms(2) k by (intro argmax_loop_first_max) auto
  then have r: "?r < length keys"
    and le: "\<forall>j < length keys. key_val (keys ! j) \<le> key_val (keys ! ?r)"
    and lt: "\<forall>j < ?r. key_val (keys ! j) < key_val (keys ! ?r)"
    using k by auto
  have fin: "\<And>j. j < length keys \<Longrightarrow> finite_num (keys ! j)"
    using assms(2) by simp
  have "\<forall>j < length keys. py_le (keys ! j) (keys ! ?r)"
    using le r fin by (simp add: py_le_key_val)
  moreover have "\<forall>j < ?r. py_lt (keys ! j) (keys ! ?r)"
    using lt r fin by (simp add: py_lt_key_val)
  moreover have "py_argmax keys = Inr ?r" using k by (simp add: py_argmax_def)
  ultimately show ?thesis using r by blast
qed

text \<open>
  C3. For a \<open>ChoiceVar\<close> of two or more categories and an encoded slice of the same
  length whose values are numbers in [0, 1], \<open>decode\<close> returns the category at the first
  position that attains the maximum of the slice: no value of the slice exceeds the value
  there, and every value before it is strictly smaller. So
  \<open>ChoiceVar(["foobar", "baz"]).decode([0.5, 0.5])\<close> is \<open>"foobar"\<close>.
\<close>

theorem choice_decode_first_max:
  "(choice_init cats = Inr v \<and> 2 \<le> length cats \<and> length encoded = length cats
      \<and> list_all is_number encoded \<and> list_all unit_interval encoded
    \<longrightarrow> (\<exists>i < length cats. choice_decode v encoded = Inr (cats ! i)
           \<and> (\<forall>j < length cats. py_le (the_num (encoded ! j)) (the_num (encoded ! i)))
           \<and> (\<forall>j < i. py_lt (the_num (encoded ! j)) (the_num (encoded ! i)))))
   \<and> (\<exists>w. choice_init [''foobar'', ''baz''] = Inr w
          \<and> choice_decode w [Num (PyFloat (Fin (1/2))), Num (PyFloat (Fin (1/2)))] = Inr ''foobar'')"
proof (intro conjI impI)
  assume a: "choice_init cats = Inr v \<and> 2 \<le> length cats \<and> length encoded = length cats
      \<and> list_all is_number encoded \<and> list_all unit_interval encoded"
  then have v: "categories v = cats" "encoding_len v = length cats"
    using choice_init_Inr[of cats v] by auto
  let ?keys = "map the_num encoded"
  from a have ne: "?keys \<noteq> []" by auto
  have fin: "\<forall>x \<in> set ?keys. finite_num x"
  proof
    fix x assume "x \<in> set ?keys"
    then obtain e where e: "e \<in> set encoded" "x = the_num e" by auto
    with a have "is_number e" "unit_interval e" by (auto simp: list_all_iff)
    then show "finite_num x" using e(2) unit_interval_finite by (cases e) auto
  qed
  from py_argmax_first_max[OF ne fin] obtain i where i: "i < length ?keys"
    "py_argmax ?keys = Inr i" "\<forall>j < length ?keys. py_le (?keys ! j) (?keys ! i)"
    "\<forall>j < i. py_lt (?keys ! j) (?keys ! i)" by blast
  have "choice_decode v encoded = Inr (cats ! i)"
    using a v i(1,2) by (simp add: choice_decode_def py_getitem_def)
  moreover have "\<forall>j < length cats. py_le (the_num (encoded ! j)) (the_num (encoded ! i))"
    using i(1,3) a by simp
  moreover have "\<forall>j < i. py_lt (the_num (encoded ! j)) (the_num (encoded ! i))"
    using i(1,4) by simp
  ultimately show "\<exists>i < length cats. choice_decode v encoded = Inr (cats ! i)
           \<and> (\<forall>j < length cats. py_le (the_num (encoded ! j)) (the_num (encoded ! i)))
           \<and> (\<forall>j < i. py_lt (the_num (encoded ! j)) (the_num (encoded ! i)))"
    using i(1) a by auto
next
  show "\<exists>w. choice_init [''foobar'', ''baz''] = Inr w
          \<and> choice_decode w [Num (PyFloat (Fin (1/2))), Num (PyFloat (Fin (1/2)))] = Inr ''foobar''"
    by (simp add: choice_init_def choice_decode_def unit_interval_def py_le_def py_lt_def
        py_argmax_def py_getitem_def)
qed

theorem choice_decode_first_max_witness:
  "\<exists>v. choice_init [''foobar'', ''baz''] = Inr v
     \<and> choice_decode v [Num (PyFloat (Fin (3/10))), Num (PyInt 1)] = Inr ''baz''"
proof -
  let ?cats = "[''foobar'', ''baz'']"
  let ?enc = "[Num (PyFloat (Fin (3/10))), Num (PyInt 1)]"
  let ?v = "\<lparr>categories = ?cats, encoding_len = 2\<rparr>"
  have h: "choice_init ?cats = Inr ?v \<and> 2 \<le> length ?cats \<and> length ?enc = length ?cats
      \<and> list_all is_number ?enc \<and> list_all unit_interval ?enc"
    by (simp add: choice_init_def unit_interval_def py_le_def)
  from choice_decode_first_max[of ?cats ?v ?enc] h
  obtain i where i: "i < length ?cats" "choice_decode ?v ?enc = Inr (?cats ! i)"
    "\<forall>j < length ?cats. py_le (the_num (?enc ! j)) (the_num (?enc ! i))" by blast
  have "(1::nat) < length ?cats" by simp
  with i(3) have "py_le (the_num (?enc ! 1)) (the_num (?enc ! i))" by blast
  with i(1) have "i = 1" by (cases i) (auto simp: py_le_def)
  with i(2) h show ?thesis by simp
qed

section \<open>Invalid configurations\<close>

lemma ebind_Inl_iff:
  "ebind m f = Inl e \<longleftrightarrow> m = Inl e \<or> (\<exists>x. m = Inr x \<and> f x = Inl e)"
  by (cases m) auto

lemma py_float_Inl: "py_float x = Inl e \<Longrightarrow> e = OverflowError"
  by (cases x) (auto split: double.splits)

lemma uniform_init_Inr_iff:
  "uniform_init lower upper = Inr uv \<longleftrightarrow>
     (\<exists>lo up. py_float lower = Inr lo \<and> py_float upper = Inr up \<and> fl_le lo up
        \<and> uv = \<lparr>uniform_lower = lo, uniform_upper = up\<rparr>)"
  by (auto simp: uniform_init_def ebind_Inr_iff split: if_splits)

lemma quniform_init_Inr_iff:
  "quniform_init lower upper q = Inr qv \<longleftrightarrow>
     (\<exists>lo up qu. py_float lower = Inr lo \<and> py_float upper = Inr up \<and> py_float q = Inr qu
        \<and> fl_le lo up \<and> fl_lt (Fin 0) qu \<and> fl_le qu (fl_sub up lo)
        \<and> qv = \<lparr>quniform_lower = lo, quniform_upper = up, quniform_quantum = qu\<rparr>)"
  by (auto simp: quniform_init_def ebind_Inr_iff split: if_splits)

lemma uniform_init_errors:
  "uniform_init lower upper = Inl e \<Longrightarrow> e = AssertionError \<or> e = OverflowError"
  by (auto simp: uniform_init_def ebind_Inl_iff dest: py_float_Inl split: if_splits)

lemma quniform_init_errors:
  "quniform_init lower upper q = Inl e \<Longrightarrow> e = AssertionError \<or> e = OverflowError"
  by (auto simp: quniform_init_def ebind_Inl_iff dest: py_float_Inl split: if_splits)

text \<open>
  C8, as the claim states it, fails on the two constructors that convert their arguments
  with \<open>float(...)\<close> and test the converted values. \<open>QuniformVar(1e-17, 1.0, 1.0)\<close> has a
  quantum above \<open>upper - lower\<close>, and is accepted: the float subtraction \<open>1.0 - 1e-17\<close>
  gives 1.0. \<open>UniformVar(2**53 + 1, 2**53)\<close> has \<open>lower > upper\<close>, and is accepted: both
  ints convert to the same float. \<open>UniformVar(10**400, 0)\<close> has \<open>lower > upper\<close>, and
  the conversion raises an OverflowError, before any assertion.
\<close>

theorem invalid_configuration_counterexample:
  "rnd (1 / 100000000000000000) = Fin (6490371073168535 / 649037107316853453566312041152512)
   \<and> quniform_init (PyFloat (Fin (6490371073168535 / 649037107316853453566312041152512)))
        (PyFloat (Fin 1)) (PyFloat (Fin 1))
      = Inr \<lparr>quniform_lower = Fin (6490371073168535 / 649037107316853453566312041152512),
              quniform_upper = Fin 1, quniform_quantum = Fin 1\<rparr>
   \<and> (1 :: rat) - 6490371073168535 / 649037107316853453566312041152512 < 1
   \<and> uniform_init (PyInt (2 ^ 53 + 1)) (PyInt (2 ^ 53))
      = Inr \<lparr>uniform_lower = Fin (2 ^ 53), uniform_upper = Fin (2 ^ 53)\<rparr>
   \<and> (2 :: int) ^ 53 < 2 ^ 53 + 1
   \<and> uniform_init (PyInt (10 ^ 400)) (PyInt 0) = Inl OverflowError"
proof -
  have e: "rnd (1 / 100000000000000000)
      = Fin (6490371073168535 / 649037107316853453566312041152512)"
    by (simp add: float_eval)
  have q: "quniform_init (PyFloat (Fin (6490371073168535 / 649037107316853453566312041152512)))
        (PyFloat (Fin 1)) (PyFloat (Fin 1))
      = Inr \<lparr>quniform_lower = Fin (6490371073168535 / 649037107316853453566312041152512),
              quniform_upper = Fin 1, quniform_quantum = Fin 1\<rparr>"
    by (simp add: quniform_init_def float_eval)
  have u: "uniform_init (PyInt (2 ^ 53 + 1)) (PyInt (2 ^ 53))
      = Inr \<lparr>uniform_lower = Fin (2 ^ 53), uniform_upper = Fin (2 ^ 53)\<rparr>"
    by (simp add: uniform_init_def float_eval)
  have o: "uniform_init (PyInt (10 ^ 400)) (PyInt 0) = Inl OverflowError"
    by (simp add: uniform_init_def float_eval)
  from e q u o show ?thesis by simp
qed

text \<open>
  C8, amended. \<open>UniformVar\<close> and \<open>QuniformVar\<close> first convert their arguments with
  \<open>float(...)\<close>; they accept exactly the configurations whose converted values satisfy
  \<open>lower \<le> upper\<close> and, for \<open>QuniformVar\<close>, \<open>0 < q \<le> upper - lower\<close> with the float
  subtraction. So they raise an AssertionError (the spec's InvalidInput) at construction
  when the converted \<open>lower\<close> is above the converted \<open>upper\<close>, or the converted quantum is
  not positive or is above the float difference; every other failure of theirs is the
  OverflowError of a conversion. \<open>RandintVar\<close> and \<open>QrandintVar\<close> raise the
  AssertionError when \<open>lower > upper\<close>, and \<open>QrandintVar\<close> when the quantum is below 1 or
  above \<open>upper - lower\<close>; \<open>ChoiceVar\<close> and \<open>GridVar\<close> raise it on an empty list and on a
  list with a duplicate.
\<close>

theorem invalid_configuration_rejected:
  "(uniform_init lower upper = Inr uv \<longleftrightarrow>
      (\<exists>lo up. py_float lower = Inr lo \<and> py_float upper = Inr up \<and> fl_le lo up
         \<and> uv = \<lparr>uniform_lower = lo, uniform_upper = up\<rparr>))
   \<and> (py_float lower = Inr lo' \<and> py_float upper = Inr up' \<and> fl_lt up' lo'
        \<longrightarrow> uniform_init lower upper = Inl AssertionError)
   \<and> (uniform_init lower upper = Inl e \<longrightarrow> e = AssertionError \<or> e = OverflowError)
   \<and> (quniform_init lower upper q = Inr qv \<longleftrightarrow>
      (\<exists>lo up qu. py_float lower = Inr lo \<and> py_float upper = Inr up \<and> py_float q = Inr qu
         \<and> fl_le lo up \<and> fl_lt (Fin 0) qu \<and> fl_le qu (fl_sub up lo)
         \<and> qv = \<lparr>quniform_lower = lo, quniform_upper = up, quniform_quantum = qu\<rparr>))
   \<and> (py_float lower = Inr lo' \<and> py_float upper = Inr up' \<and> py_float q = Inr qu'
        \<and> (fl_lt up' lo' \<or> fl_le qu' (Fin 0) \<or> fl_lt (fl_sub up' lo') qu')
        \<longrightarrow> quniform_init lower upper q = Inl AssertionError)
   \<and> (quniform_init lower upper q = Inl e' \<longrightarrow> e' = AssertionError \<or> e' = OverflowError)
   \<and> (u < l \<longrightarrow> randint_init (PyInt l) (PyInt u) = Inl AssertionError)
   \<and> (u < l \<or> k \<le> 0 \<or> u - l < k
        \<longrightarrow> qrandint_init (PyInt l) (PyInt u) (PyInt k) = Inl AssertionError)
   \<and> choice_init ([] :: 'a list) = Inl AssertionError
   \<and> (\<not> distinct (cats :: 'a list) \<longrightarrow> choice_init cats = Inl AssertionError)
   \<and> grid_init ([] :: 'b::linorder list) = Inl AssertionError
   \<and> (\<not> distinct (vals :: 'b list) \<longrightarrow> grid_init vals = Inl AssertionError)"
proof -
  have 1: "py_float lower = Inr lo' \<and> py_float upper = Inr up' \<and> fl_lt up' lo'
        \<longrightarrow> uniform_init lower upper = Inl AssertionError"
    by (auto simp: uniform_init_def dest: fl_lt_not_le)
  have 2: "py_float lower = Inr lo' \<and> py_float upper = Inr up' \<and> py_float q = Inr qu'
        \<and> (fl_lt up' lo' \<or> fl_le qu' (Fin 0) \<or> fl_lt (fl_sub up' lo') qu')
        \<longrightarrow> quniform_init lower upper q = Inl AssertionError"
    by (auto simp: quniform_init_def dest: fl_lt_not_le fl_le_not_lt)
  have 3: "u < l \<longrightarrow> randint_init (PyInt l) (PyInt u) = Inl AssertionError"
    by (simp add: randint_init_def)
  have 4: "u < l \<or> k \<le> 0 \<or> u - l < k
        \<longrightarrow> qrandint_init (PyInt l) (PyInt u) (PyInt k) = Inl AssertionError"
    by (auto simp: qrandint_init_def)
  have 5: "choice_init ([] :: 'a list) = Inl AssertionError"
    by (simp add: choice_init_def)
  have 6: "\<not> distinct cats \<longrightarrow> choice_init cats = Inl AssertionError"
    using remdups_length_distinct[of cats] by (auto simp: choice_init_def Let_def)
  have 7: "grid_init ([] :: 'b::linorder list) = Inl AssertionError"
    by (simp add: grid_init_def)
  have 8: "\<not> distinct vals \<longrightarrow> grid_init vals = Inl AssertionError"
    using remdups_length_distinct[of "sort vals"] by (auto simp: grid_init_def Let_def)
  have 9: "uniform_init lower upper = Inl e \<longrightarrow> e = AssertionError \<or> e = OverflowError"
    using uniform_init_errors by blast
  have 10: "quniform_init lower upper q = Inl e' \<longrightarrow> e' = AssertionError \<or> e' = OverflowError"
    using quniform_init_errors by blast
  from uniform_init_Inr_iff[of lower upper uv] quniform_init_Inr_iff[of lower upper q qv]
    1 2 3 4 5 6 7 8 9 10
  show ?thesis by blast
qed

theorem invalid_configuration_rejected_witness:
  "uniform_init (PyFloat (Fin 1)) (PyInt 0) = Inl AssertionError
   \<and> quniform_init (PyInt 0) (PyFloat (Fin 1)) (PyInt 2) = Inl AssertionError
   \<and> randint_init (PyInt 1) (PyInt 0) = Inl AssertionError
   \<and> qrandint_init (PyInt 0) (PyInt 1) (PyInt 0) = Inl AssertionError
   \<and> choice_init [''a'', ''b'', ''a''] = Inl AssertionError
   \<and> grid_init [2, 1, 2 :: int] = Inl AssertionError"
proof -
  have h: "py_float (PyFloat (Fin 1)) = Inr (Fin 1)" "py_float (PyInt 0) = Inr (Fin 0)"
    "py_float (PyInt 2) = Inr (Fin 2)"
    "fl_lt (Fin 0) (Fin 1)" "fl_lt (fl_sub (Fin 1) (Fin 0)) (Fin 2)"
    "(0::int) < 1" "(0::int) \<le> 0" "\<not> distinct [''a'', ''b'', ''a'']" "\<not> distinct [2, 1, 2 :: int]"
    by (simp_all add: float_eval)
  from invalid_configuration_rejected[of "PyFloat (Fin 1)" "PyInt 0" _ "Fin 1" "Fin 0" _
      "PyInt 2" _ "Fin 2" _ 0 1 0 "[''a'', ''b'', ''a'']" "[2, 1, 2 :: int]"] h
  have a: "uniform_init (PyFloat (Fin 1)) (PyInt 0) = Inl AssertionError"
    "randint_init (PyInt 1) (PyInt 0) = Inl AssertionError"
    "choice_init [''a'', ''b'', ''a''] = Inl AssertionError"
    "grid_init [2, 1, 2 :: int] = Inl AssertionError"
    by blast+
  from invalid_configuration_rejected[of "PyInt 0" "PyFloat (Fin 1)" _ "Fin 0" "Fin 1" _
      "PyInt 2" _ "Fin 2" _ 1 0 0 "[''a'']" "[2 :: int]"] h
  have b: "quniform_init (PyInt 0) (PyFloat (Fin 1)) (PyInt 2) = Inl AssertionError"
    "qrandint_init (PyInt 0) (PyInt 1) (PyInt 0) = Inl AssertionError"
    by blast+
  from a b show ?thesis by simp
qed

section \<open>RandintVar and GridVar\<close>

lemma randint_bounds_0_0:
  "randint_bounds \<lparr>randint_lower = 0, randint_upper = 0\<rparr>
   = Inr [(PyFloat (Fin (- (1/2) + 1 / 2 ^ 54)), PyFloat (Fin (1/2 - 1 / 2 ^ 54)))]"
  by (simp add: var_eval float_eval)

lemma randint_bounds_0_4:
  "randint_bounds \<lparr>randint_lower = 0, randint_upper = 4\<rparr>
   = Inr [(PyFloat (Fin (- (1/2) + 1 / 2 ^ 54)), PyFloat (Fin (9/2 - 1 / 2 ^ 50)))]"
  by (simp add: var_eval float_eval)

lemma randint_decode_0_4_int0:
  "randint_decode \<lparr>randint_lower = 0, randint_upper = 4\<rparr> [Num (PyInt 0)] = Inr 0"
  by (simp add: randint_decode_def randint_bounds_0_4 py_getitem_def py_le_def)

lemma randint_decode_0_4_float0:
  "randint_decode \<lparr>randint_lower = 0, randint_upper = 4\<rparr> [Num (PyFloat (Fin 0))] = Inr 0"
  by (simp add: randint_decode_def randint_bounds_0_4 py_getitem_def py_le_def rhe_def)

lemma next_float_neg_half:
  "next_float (PyFloat (Fin (- (1/2)))) = Inr (PyFloat (Fin (- (1/2) + 1 / 2 ^ 54)))"
  by (simp add: var_eval float_eval)

lemma prev_float_half:
  "prev_float (PyFloat (Fin (1/2))) = Inr (PyFloat (Fin (1/2 - 1 / 2 ^ 54)))"
  by (simp add: var_eval float_eval)

lemma grid_init_Inr:
  assumes "grid_init vals = Inr g"
  shows "vals \<noteq> [] \<and> distinct vals \<and> grid_values g = sort vals
         \<and> grid_randint_var g = \<lparr>randint_lower = 0, randint_upper = int (length vals) - 1\<rparr>"
proof -
  from assms have ne: "vals \<noteq> []"
    by (auto simp: grid_init_def split: if_splits)
  from assms ne have d: "length (sort vals) = length (remdups (sort vals))"
    by (auto simp: grid_init_def Let_def split: if_splits)
  then have "distinct (sort vals)" using remdups_length_distinct by blast
  then have dv: "distinct vals" by simp
  from ne have "0 \<le> int (length vals) - 1" by (cases vals) auto
  with assms ne d show ?thesis
    using dv by (auto simp: grid_init_def Let_def randint_init_def split: if_splits)
qed

lemma sort_mset_eq: "mset xs = mset ys \<Longrightarrow> sort xs = sort (ys :: 'a::linorder list)"
  by (metis properties_for_sort sorted_sort mset_sort)

lemma grid_init_mset:
  assumes "mset vals' = mset (vals :: 'a::linorder list)"
  shows "grid_init vals' = grid_init vals"
proof -
  have "sort vals' = sort vals" using assms by (rule sort_mset_eq)
  moreover have "length vals' = length vals" using assms by (rule mset_eq_length)
  moreover have "vals' = [] \<longleftrightarrow> vals = []" using assms by (metis mset_zero_iff)
  ultimately show ?thesis by (simp add: grid_init_def cong del: if_weak_cong)
qed

lemma grid_example:
  "grid_init [10, 3602879701896397 / 36028797018963968, 100,
              5764607523034235 / 576460752303423488, 1 :: rat]
   = Inr \<lparr>grid_values = [5764607523034235 / 576460752303423488,
                           3602879701896397 / 36028797018963968, 1, 10, 100],
           grid_randint_var = \<lparr>randint_lower = 0, randint_upper = 4\<rparr>\<rparr>"
  by (simp add: grid_init_def randint_init_def)

text \<open>
  C6. A \<open>GridVar\<close> stores its values sorted ascending, with an inner \<open>RandintVar\<close> over
  the index range [0, count - 1]; its bounds are the inner variable's, and its decoding is
  the inner decoding followed by the lookup in the sorted list. The constructed variable
  depends on the values only, not on their order. The floats 0.1 and 0.01 are written by
  their exact values: \<open>GridVar([10, 0.1, 100, 0.01, 1])\<close> holds \<open>[0.01, 0.1, 1, 10, 100]\<close>,
  and decoding index 0 (as the int \<open>0\<close> or the float \<open>0.0\<close>) yields 0.01.
\<close>

theorem grid_sorted_delegation:
  "(grid_init vals = Inr g \<longrightarrow>
      grid_values g = sort vals \<and> sorted (grid_values g) \<and> distinct (grid_values g)
      \<and> set (grid_values g) = set vals
      \<and> grid_randint_var g = \<lparr>randint_lower = 0, randint_upper = int (length vals) - 1\<rparr>
      \<and> grid_bounds g = randint_bounds (grid_randint_var g)
      \<and> grid_decode g encoded
          = ebind (randint_decode (grid_randint_var g) encoded) (py_getitem (grid_values g)))
   \<and> (mset vals' = mset vals \<longrightarrow> grid_init vals' = grid_init vals)
   \<and> rnd (1 / 10) = Fin (3602879701896397 / 36028797018963968)
   \<and> rnd (1 / 100) = Fin (5764607523034235 / 576460752303423488)
   \<and> (\<exists>g0. grid_init [10, 3602879701896397 / 36028797018963968, 100,
                       5764607523034235 / 576460752303423488, 1 :: rat] = Inr g0
          \<and> grid_values g0 = [5764607523034235 / 576460752303423488,
                              3602879701896397 / 36028797018963968, 1, 10, 100]
          \<and> grid_decode g0 [Num (PyInt 0)] = Inr (5764607523034235 / 576460752303423488)
          \<and> grid_decode g0 [Num (PyFloat (Fin 0))] = Inr (5764607523034235 / 576460752303423488))"
proof (intro conjI impI)
  assume a: "grid_init vals = Inr g"
  from grid_init_Inr[OF a] have gv: "grid_values g = sort vals" and d: "distinct vals"
    and rv: "grid_randint_var g = \<lparr>randint_lower = 0, randint_upper = int (length vals) - 1\<rparr>"
    by auto
  show "grid_values g = sort vals" by (rule gv)
  show "sorted (grid_values g)" using gv by simp
  show "distinct (grid_values g)" using gv d by simp
  show "set (grid_values g) = set vals" using gv by simp
  show "grid_randint_var g = \<lparr>randint_lower = 0, randint_upper = int (length vals) - 1\<rparr>"
    by (rule rv)
  show "grid_bounds g = randint_bounds (grid_randint_var g)" by (simp add: grid_bounds_def)
  show "grid_decode g encoded
          = ebind (randint_decode (grid_randint_var g) encoded) (py_getitem (grid_values g))"
    by (simp add: grid_decode_def)
next
  assume "mset vals' = mset vals"
  then show "grid_init vals' = grid_init vals" by (rule grid_init_mset)
next
  show "rnd (1 / 10) = Fin (3602879701896397 / 36028797018963968)"
    by (simp add: float_eval)
  show "rnd (1 / 100) = Fin (5764607523034235 / 576460752303423488)"
    by (simp add: float_eval)
  show "\<exists>g0. grid_init [10, 3602879701896397 / 36028797018963968, 100,
                       5764607523034235 / 576460752303423488, 1 :: rat] = Inr g0
          \<and> grid_values g0 = [5764607523034235 / 576460752303423488,
                              3602879701896397 / 36028797018963968, 1, 10, 100]
          \<and> grid_decode g0 [Num (PyInt 0)] = Inr (5764607523034235 / 576460752303423488)
          \<and> grid_decode g0 [Num (PyFloat (Fin 0))] = Inr (5764607523034235 / 576460752303423488)"
    by (simp add: grid_example grid_decode_def randint_decode_0_4_int0
        randint_decode_0_4_float0 py_getitem_def)
qed

theorem grid_sorted_delegation_witness:
  "\<exists>g. grid_init [1, 100, 10 :: rat] = Inr g \<and> grid_values g = [1, 10, 100]
     \<and> grid_init [100, 10, 1 :: rat] = Inr g"
proof -
  let ?g = "\<lparr>grid_values = [1, 10, 100 :: rat],
             grid_randint_var = \<lparr>randint_lower = 0, randint_upper = 2\<rparr>\<rparr>"
  have i: "grid_init [1, 100, 10 :: rat] = Inr ?g"
    by (simp add: grid_init_def randint_init_def)
  have m: "mset [100, 10, 1 :: rat] = mset [1, 100, 10]" by simp
  from grid_sorted_delegation[of "[1, 100, 10 :: rat]" ?g "[]" "[100, 10, 1]"] i m
  have "grid_values ?g = sort [1, 100, 10]" "grid_init [100, 10, 1 :: rat] = grid_init [1, 100, 10]"
    by blast+
  with i show ?thesis by simp
qed

text \<open>
  C9. A \<open>GridVar\<close> of exactly one value has the bounds of the inner \<open>RandintVar\<close> over
  [0, 0], the one pair \<open>(next_float(-0.5), prev_float(0.5))\<close>, and so the encoding length
  1; a \<open>ChoiceVar\<close> of exactly one category has the encoding length 0.
\<close>

theorem grid_single_value:
  "\<exists>g lo hi. grid_init [x] = Inr g
     \<and> grid_randint_var g = \<lparr>randint_lower = 0, randint_upper = 0\<rparr>
     \<and> next_float (PyFloat (Fin (- (1/2)))) = Inr lo
     \<and> prev_float (PyFloat (Fin (1/2))) = Inr hi
     \<and> grid_bounds g = Inr [(lo, hi)]
     \<and> var_len (grid_bounds g) = Inr 1
     \<and> (\<exists>c. choice_init [x] = Inr c \<and> var_len (choice_bounds c) = Inr 0)"
  by (simp add: grid_init_def randint_init_def grid_bounds_def randint_bounds_0_0
      next_float_neg_half prev_float_half var_len_def choice_init_def choice_bounds_def)

text \<open>
  C10. Whenever the inner \<open>RandintVar\<close> of a \<open>GridVar\<close> decodes an encoded slice, the
  index it returns lies in [0, count - 1], so that the lookup in the sorted list succeeds
  and returns one of the values the variable was built from.
\<close>

theorem grid_decode_in_range:
  assumes "grid_init vals = Inr g"
    and "randint_decode (grid_randint_var g) encoded = Inr i"
  shows "0 \<le> i \<and> i < int (length vals)
         \<and> grid_decode g encoded = Inr (grid_values g ! nat i)
         \<and> grid_values g ! nat i \<in> set vals"
proof -
  from grid_init_Inr[OF assms(1)] have gv: "grid_values g = sort vals"
    and rv: "grid_randint_var g = \<lparr>randint_lower = 0, randint_upper = int (length vals) - 1\<rparr>"
    by auto
  from assms(2) have rng: "randint_lower (grid_randint_var g) \<le> i \<and> i \<le> randint_upper (grid_randint_var g)"
    by (auto simp: randint_decode_def ebind_Inr_iff split: if_splits pyobj.splits prod.splits)
  with rv have r: "0 \<le> i" "i < int (length vals)" by auto
  then have n: "nat i < length (sort vals)" by simp
  have dec: "grid_decode g encoded = Inr (grid_values g ! nat i)"
    using assms(2) r gv by (simp add: grid_decode_def py_getitem_def)
  have "sort vals ! nat i \<in> set (sort vals)" using n by (rule nth_mem)
  then have "grid_values g ! nat i \<in> set vals" using gv by simp
  with r dec show ?thesis by simp
qed

theorem grid_decode_in_range_witness:
  "grid_decode \<lparr>grid_values = [5764607523034235 / 576460752303423488,
                               3602879701896397 / 36028797018963968, 1, 10, 100 :: rat],
                 grid_randint_var = \<lparr>randint_lower = 0, randint_upper = 4\<rparr>\<rparr>
     [Num (PyFloat (Fin 0))] = Inr (5764607523034235 / 576460752303423488)"
proof -
  let ?vals = "[10, 3602879701896397 / 36028797018963968, 100,
                5764607523034235 / 576460752303423488, 1 :: rat]"
  let ?g = "\<lparr>grid_values = [5764607523034235 / 576460752303423488,
                            3602879701896397 / 36028797018963968, 1, 10, 100 :: rat],
              grid_randint_var = \<lparr>randint_lower = 0, randint_upper = 4\<rparr>\<rparr>"
  have d: "randint_decode (grid_randint_var ?g) [Num (PyFloat (Fin 0))] = Inr 0"
    by (simp add: randint_decode_0_4_float0)
  from grid_decode_in_range[OF grid_example d] show ?thesis by simp
qed

section \<open>The cache of the objective wrapper\<close>

text \<open>
  C4. On a fresh wrapper, one evaluation of a vector that decodes gives the statistics
  hits = 0, misses = 1, currsize = 1; a second evaluation of the same vector gives
  hits = 1, misses = 1, currsize = 1 and returns the same result, and the logical
  function has been called once in all.
\<close>

theorem evaluate_cache:
  assumes "objective_decode variables x = Inr d"
  shows "let (r1, s1) = evaluate func variables fresh x;
             (r2, s2) = evaluate func variables s1 x
         in r1 = Inr (func d) \<and> cache_info s1 = (0, 1, None, 1) \<and> calls s1 = [d]
            \<and> r2 = r1 \<and> cache_info s2 = (1, 1, None, 1) \<and> calls s2 = [d]"
  using assms by (simp add: evaluate_def fresh_def cache_info_def Let_def)

theorem evaluate_cache_witness:
  "let variables = [RandintVar \<lparr>randint_lower = 0, randint_upper = 4\<rparr>,
                    ChoiceVar \<lparr>categories = [''x''], encoding_len = 0\<rparr>];
       x = [Num (PyInt 0)];
       func = (\<lambda>d. int (length d));
       (r1, s1) = evaluate func variables fresh x;
       (r2, s2) = evaluate func variables s1 x
   in objective_decode variables x = Inr [NumVal (PyInt 0), CatVal ''x'']
      \<and> r1 = Inr 2 \<and> cache_info s1 = (0, 1, None, 1)
      \<and> r2 = Inr 2 \<and> cache_info s2 = (1, 1, None, 1)
      \<and> calls s2 = [[NumVal (PyInt 0), CatVal ''x'']]"
proof -
  let ?vs = "[RandintVar \<lparr>randint_lower = 0, randint_upper = 4\<rparr>,
              ChoiceVar \<lparr>categories = [''x''], encoding_len = 0\<rparr>]"
  have d: "objective_decode ?vs [Num (PyInt 0)] = Inr [NumVal (PyInt 0), CatVal ''x'']"
    by (simp add: randint_bounds_0_4 randint_decode_0_4_int0 var_len_def choice_bounds_def
        choice_decode_def py_getitem_def)
  show ?thesis
    using evaluate_cache[OF d, of "\<lambda>d. int (length d)"] d
    by (simp add: Let_def split: prod.splits)
qed

section \<open>Rounding down and up to a multiple\<close>












section \<open>Quantized variables\<close>

lemma quantized_bounds_Inr_iff:
  "quantized_bounds lower upper quantum = Inr b \<longleftrightarrow>
     (\<exists>half_step ql qu span a c lo hi.
        py_truediv quantum (PyInt 2) = Inr half_step
        \<and> round_up lower quantum = Inr ql \<and> round_down upper quantum = Inr qu
        \<and> py_le lower ql \<and> py_le ql qu \<and> py_le qu upper
        \<and> py_sub qu ql = Inr span \<and> py_le quantum span
        \<and> py_sub ql half_step = Inr a \<and> next_float a = Inr lo
        \<and> py_add qu half_step = Inr c \<and> prev_float c = Inr hi
        \<and> b = [(lo, hi)])" (is "?l \<longleftrightarrow> ?r")
proof
  assume ?l
  then show ?r by (auto simp: quantized_bounds_def ebind_Inr_iff split: if_splits)
next
  assume ?r
  then show ?l by (auto simp: quantized_bounds_def)
qed

lemma cached_property_twice:
  "let (r1, c1) = cached_property f v None; (r2, c2) = cached_property f v c1
   in r1 = f v \<and> r2 = r1 \<and> c2 = c1"
  by (cases "f v") (simp_all add: cached_property_def)

lemma quniform_example_literals:
  "rnd (- 111 / 10) = Fin (- (6248744482976563 / 562949953421312))
   \<and> rnd (999 / 100) = Fin (5623870034678907 / 562949953421312)
   \<and> rnd (22 / 100) = Fin (7926335344172073 / 36028797018963968)
   \<and> rnd (- 11109999999999998 / 1000000000000000) = Fin (- (6254373982510775 / 562949953421312))
   \<and> rnd (10009999999999998 / 1000000000000000) = Fin (1408782258436833 / 140737488355328)"
  by (simp add: float_eval)

lemma quniform_example_init:
  "quniform_init (PyFloat (Fin (- (6248744482976563 / 562949953421312))))
      (PyFloat (Fin (5623870034678907 / 562949953421312)))
      (PyFloat (Fin (7926335344172073 / 36028797018963968)))
   = Inr \<lparr>quniform_lower = Fin (- (6248744482976563 / 562949953421312)),
           quniform_upper = Fin (5623870034678907 / 562949953421312),
           quniform_quantum = Fin (7926335344172073 / 36028797018963968)\<rparr>"
  by (simp add: quniform_init_def float_eval)

lemma quniform_example_bounds:
  "quniform_bounds \<lparr>quniform_lower = Fin (- (6248744482976563 / 562949953421312)),
           quniform_upper = Fin (5623870034678907 / 562949953421312),
           quniform_quantum = Fin (7926335344172073 / 36028797018963968)\<rparr>
   = Inr [(PyFloat (Fin (- (6254373982510775 / 562949953421312))),
           PyFloat (Fin (1408782258436833 / 140737488355328)))]"
  by (simp add: quniform_bounds_def quantized_bounds_def round_up_def round_down_def
      round_nearest_def isclose_def fl_isclose_def next_float_def prev_float_def
      rel_tol_value float_eval)

text \<open>
  C2, as the claim states it, fails: \<open>QuniformVar(1, 3, 2)\<close> satisfies \<open>lower \<le> upper\<close> and
  \<open>0 < q \<le> upper - lower\<close>, both quantized endpoints are 2.0, and \<open>bounds\<close> raises at its
  own assertion \<open>quantum \<le> quantized_upper - quantized_lower\<close>.
\<close>

theorem quniform_bounds_counterexample:
  "quniform_init (PyInt 1) (PyInt 3) (PyInt 2)
     = Inr \<lparr>quniform_lower = Fin 1, quniform_upper = Fin 3, quniform_quantum = Fin 2\<rparr>
   \<and> quniform_bounds \<lparr>quniform_lower = Fin 1, quniform_upper = Fin 3, quniform_quantum = Fin 2\<rparr>
     = Inl AssertionError"
proof -
  have u: "round_up (PyFloat (Fin 1)) (PyFloat (Fin 2)) = Inr (PyFloat (Fin 2))"
    by (simp add: round_up_def round_nearest_def isclose_def fl_isclose_def rel_tol_value float_eval)
  have d: "round_down (PyFloat (Fin 3)) (PyFloat (Fin 2)) = Inr (PyFloat (Fin 2))"
    by (simp add: round_down_def round_nearest_def isclose_def fl_isclose_def rel_tol_value float_eval)
  have h: "py_truediv (PyFloat (Fin 2)) (PyInt 2) = Inr (PyFloat (Fin 1))"
    by (simp add: float_eval)
  have s: "py_sub (PyFloat (Fin 2)) (PyFloat (Fin 2)) = Inr (PyFloat (Fin 0))"
    by (simp add: float_eval)
  show ?thesis
    by (simp add: quniform_init_def quniform_bounds_def quantized_bounds_def u d h s float_eval)
qed

text \<open>
  C2, amended. The bounds of a \<open>QuniformVar\<close> are computed exactly when the quantized
  endpoints \<open>round_up(lower, q)\<close> and \<open>round_down(upper, q)\<close> pass the two assertions of
  \<open>bounds\<close>, and they are then the single pair
  \<open>(next_float(quantized_lower - q/2), prev_float(quantized_upper + q/2))\<close>. For
  \<open>QuniformVar(-11.1, 9.99, 0.22)\<close> they are
  \<open>((-11.109999999999998, 10.009999999999998),)\<close>, the five decimal literals being the
  floats given by \<open>rnd\<close>. An access through the cache returns the computed value, and a
  second access returns the same value and leaves the cache as it is.
\<close>

theorem quniform_bounds_formula:
  "(quniform_bounds v = Inr b \<longleftrightarrow>
     (\<exists>half_step ql qu span a c lo hi.
        py_truediv (PyFloat (quniform_quantum v)) (PyInt 2) = Inr half_step
        \<and> round_up (PyFloat (quniform_lower v)) (PyFloat (quniform_quantum v)) = Inr ql
        \<and> round_down (PyFloat (quniform_upper v)) (PyFloat (quniform_quantum v)) = Inr qu
        \<and> py_le (PyFloat (quniform_lower v)) ql \<and> py_le ql qu
        \<and> py_le qu (PyFloat (quniform_upper v))
        \<and> py_sub qu ql = Inr span \<and> py_le (PyFloat (quniform_quantum v)) span
        \<and> py_sub ql half_step = Inr a \<and> next_float a = Inr lo
        \<and> py_add qu half_step = Inr c \<and> prev_float c = Inr hi
        \<and> b = [(lo, hi)]))
   \<and> rnd (- 111 / 10) = Fin (- (6248744482976563 / 562949953421312))
   \<and> rnd (999 / 100) = Fin (5623870034678907 / 562949953421312)
   \<and> rnd (22 / 100) = Fin (7926335344172073 / 36028797018963968)
   \<and> rnd (- 11109999999999998 / 1000000000000000) = Fin (- (6254373982510775 / 562949953421312))
   \<and> rnd (10009999999999998 / 1000000000000000) = Fin (1408782258436833 / 140737488355328)
   \<and> quniform_init (PyFloat (Fin (- (6248744482976563 / 562949953421312))))
        (PyFloat (Fin (5623870034678907 / 562949953421312)))
        (PyFloat (Fin (7926335344172073 / 36028797018963968)))
      = Inr \<lparr>quniform_lower = Fin (- (6248744482976563 / 562949953421312)),
              quniform_upper = Fin (5623870034678907 / 562949953421312),
              quniform_quantum = Fin (7926335344172073 / 36028797018963968)\<rparr>
   \<and> quniform_bounds \<lparr>quniform_lower = Fin (- (6248744482976563 / 562949953421312)),
           quniform_upper = Fin (5623870034678907 / 562949953421312),
           quniform_quantum = Fin (7926335344172073 / 36028797018963968)\<rparr>
      = Inr [(PyFloat (Fin (- (6254373982510775 / 562949953421312))),
              PyFloat (Fin (1408782258436833 / 140737488355328)))]
   \<and> (let (r1, c1) = cached_property quniform_bounds v None;
           (r2, c2) = cached_property quniform_bounds v c1
       in r1 = quniform_bounds v \<and> r2 = r1 \<and> c2 = c1)"
  using quantized_bounds_Inr_iff[of "PyFloat (quniform_lower v)" "PyFloat (quniform_upper v)"
      "PyFloat (quniform_quantum v)" b]
    quniform_example_literals quniform_example_init quniform_example_bounds
    cached_property_twice[of quniform_bounds v]
  unfolding quniform_bounds_def[symmetric] by blast

theorem quniform_bounds_formula_witness:
  "\<exists>half_step ql qu a c.
     py_truediv (PyFloat (Fin (7926335344172073 / 36028797018963968))) (PyInt 2) = Inr half_step
     \<and> round_up (PyFloat (Fin (- (6248744482976563 / 562949953421312))))
          (PyFloat (Fin (7926335344172073 / 36028797018963968))) = Inr ql
     \<and> round_down (PyFloat (Fin (5623870034678907 / 562949953421312)))
          (PyFloat (Fin (7926335344172073 / 36028797018963968))) = Inr qu
     \<and> py_sub ql half_step = Inr a
     \<and> next_float a = Inr (PyFloat (Fin (- (6254373982510775 / 562949953421312))))
     \<and> py_add qu half_step = Inr c
     \<and> prev_float c = Inr (PyFloat (Fin (1408782258436833 / 140737488355328)))"
proof -
  let ?v = "\<lparr>quniform_lower = Fin (- (6248744482976563 / 562949953421312)),
           quniform_upper = Fin (5623870034678907 / 562949953421312),
           quniform_quantum = Fin (7926335344172073 / 36028797018963968)\<rparr>"
  let ?b = "[(PyFloat (Fin (- (6254373982510775 / 562949953421312))),
              PyFloat (Fin (1408782258436833 / 140737488355328)))]"
  have e: "quniform_bounds ?v = Inr ?b" by (rule quniform_example_bounds)
  from quniform_bounds_formula[of ?v ?b] e
  obtain half_step ql qu span a c lo hi where
    "py_truediv (PyFloat (quniform_quantum ?v)) (PyInt 2) = Inr half_step"
    "round_up (PyFloat (quniform_lower ?v)) (PyFloat (quniform_quantum ?v)) = Inr ql"
    "round_down (PyFloat (quniform_upper ?v)) (PyFloat (quniform_quantum ?v)) = Inr qu"
    "py_sub ql half_step = Inr a" "next_float a = Inr lo"
    "py_add qu half_step = Inr c" "prev_float c = Inr hi" "?b = [(lo, hi)]"
    by blast
  then show ?thesis by auto
qed

text \<open>
  C1. Decoding an endpoint of the computed bound of a quantized variable should not raise
  and should give a value in [lower, upper]. \<open>QrandintVar(10000000001, 10000000011, 2)\<close>
  is accepted by the constructor and its bounds are computed; \<open>round_up\<close> has returned
  \<open>lower\<close> itself there, which is close to a multiple of 2 but is not one. The lower
  endpoint of the bound, the float after 10000000000.0, rounds to 10000000000, below
  \<open>lower\<close>, and \<open>decode\<close> raises an AssertionError.
\<close>

theorem qrandint_endpoint_decode_fails:
  "qrandint_init (PyInt 10000000001) (PyInt 10000000011) (PyInt 2)
     = Inr \<lparr>qrandint_lower = 10000000001, qrandint_upper = 10000000011, qrandint_quantum = 2\<rparr>
   \<and> round_up (PyInt 10000000001) (PyInt 2) = Inr (PyInt 10000000001)
   \<and> qrandint_bounds \<lparr>qrandint_lower = 10000000001, qrandint_upper = 10000000011,
                       qrandint_quantum = 2\<rparr>
     = Inr [(PyFloat (Fin (5242880000000001 / 524288)), PyFloat (Fin (5242880006291455 / 524288)))]
   \<and> round_nearest (PyFloat (Fin (5242880000000001 / 524288))) (PyInt 2) = Inr (PyInt 10000000000)
   \<and> qrandint_decode \<lparr>qrandint_lower = 10000000001, qrandint_upper = 10000000011,
                        qrandint_quantum = 2\<rparr> [Num (PyFloat (Fin (5242880000000001 / 524288)))]
     = Inl AssertionError"
proof -
  let ?v = "\<lparr>qrandint_lower = 10000000001, qrandint_upper = 10000000011, qrandint_quantum = 2\<rparr>"
  have i: "qrandint_init (PyInt 10000000001) (PyInt 10000000011) (PyInt 2) = Inr ?v"
    by (simp add: qrandint_init_def)
  have u: "round_up (PyInt 10000000001) (PyInt 2) = Inr (PyInt 10000000001)"
    by (simp add: round_up_def round_nearest_def isclose_def fl_isclose_def rel_tol_value
        float_eval)
  have b: "quantized_bounds (PyInt 10000000001) (PyInt 10000000011) (PyInt 2)
     = Inr [(PyFloat (Fin (5242880000000001 / 524288)), PyFloat (Fin (5242880006291455 / 524288)))]"
    by (simp add: quantized_bounds_def u round_down_def round_nearest_def
        isclose_def fl_isclose_def next_float_def prev_float_def rel_tol_value float_eval)
  have r: "round_nearest (PyFloat (Fin (5242880000000001 / 524288))) (PyInt 2) = Inr (PyInt 10000000000)"
    by (simp add: round_nearest_def float_eval)
  have d: "quantized_decode True (PyInt 10000000001) (PyInt 10000000011) (PyInt 2)
       [Num (PyFloat (Fin (5242880000000001 / 524288)))] = Inl AssertionError"
    by (simp add: quantized_decode_def b r py_getitem_def py_le_def)
  from i u b r d show ?thesis by (simp add: qrandint_bounds_def qrandint_decode_def)
qed

end
